theory Spec2Isabelle
  imports Complex_Main "HOL-Library.Word" "HOL-Library.Multiset"
begin

section \<open>Image validation (\<open>validateImage\<close> of \<open>src/lib/pdf-utils.ts\<close>)\<close>

text \<open>
  \<open>validateImage(file, type)\<close> reads two attributes of the \<open>File\<close> (its MIME type and
  its byte size), then hands the file to the browser's image decoder. The decoder
  answers with exactly one of two events: \<open>onload\<close>, with the pixel width and height,
  or \<open>onerror\<close>. The model takes that answer as the argument \<open>decoded\<close>:
  \<open>Some (width, height)\<close> for \<open>onload\<close>, \<open>None\<close> for \<open>onerror\<close>.
\<close>

datatype image_type = Photo | Signature

record image_file =
  file_type :: string
  file_size :: nat

record constraints =
  maxSizeMB :: nat
  maxSizeBytes :: nat
  acceptedTypes :: "string list"
  minWidth :: nat
  minHeight :: nat
  maxWidth :: nat
  maxHeight :: nat
  recommendedWidth :: nat
  recommendedHeight :: nat
  aspectRatioMin :: rat
  aspectRatioMax :: rat

text \<open>
  The quotient \<open>width / height\<close> of two JavaScript numbers: division by zero gives
  \<open>Infinity\<close>, and \<open>0 / 0\<close> gives \<open>NaN\<close>; every comparison with \<open>NaN\<close> is false.
  Width and height are the image element's unsigned 32-bit attributes, so a finite
  quotient differs from each of the four bounds (0.6, 1.0, 0.5, 8.0) either by nothing
  or by far more than a rounding step of a double: the comparisons of the source agree
  with the exact ones on \<open>rat\<close>.
\<close>

datatype js_quotient = Finite rat | Infinity | NaN

definition js_div :: "nat \<Rightarrow> nat \<Rightarrow> js_quotient" where
  "js_div w h =
     (if h = 0 then (if w = 0 then NaN else Infinity)
      else Finite (rat_of_nat w / rat_of_nat h))"

fun js_less :: "js_quotient \<Rightarrow> rat \<Rightarrow> bool" where
  "js_less (Finite q) c = (q < c)"
| "js_less Infinity c = False"
| "js_less NaN c = False"

fun js_greater :: "js_quotient \<Rightarrow> rat \<Rightarrow> bool" where
  "js_greater (Finite q) c = (q > c)"
| "js_greater Infinity c = True"
| "js_greater NaN c = False"

text \<open>
  The messages are template strings; each constructor stands for one template and
  carries the values the template interpolates.
  \<^item> \<open>InvalidFileType t\<close>: ``Invalid file type: t. Please upload a JPG or PNG image.''
  \<^item> \<open>FileSizeExceeds n mb\<close>: ``File size (n/1024/1024 MB) exceeds the maximum of mb MB.''
  \<^item> \<open>ImageTooSmall w h mw mh\<close>: ``Image is too small (w x h px). Minimum size: mw x mh px.''
  \<^item> \<open>CouldNotRead\<close>: ``Could not read image file. It may be corrupted.''
  \<^item> \<open>ImageVeryLarge w h rw rh\<close>: ``Image is very large (w x h px). It will be resized.
    Recommended: rw x rh px.''
  \<^item> \<open>UnusualAspectRatio q t\<close>: ``Image aspect ratio (q) is unusual for a t. ...''
\<close>

datatype validation_error =
    InvalidFileType string
  | FileSizeExceeds nat nat
  | ImageTooSmall nat nat nat nat
  | CouldNotRead

datatype validation_warning =
    ImageVeryLarge nat nat nat nat
  | UnusualAspectRatio js_quotient image_type

record image_validation_result =
  valid :: bool
  errors :: "validation_error list"
  warnings :: "validation_warning list"
  dimensions :: "(nat \<times> nat) option"

definition photo_constraints :: constraints where
  "photo_constraints =
     \<lparr> maxSizeMB = 5, maxSizeBytes = 5 * 1024 * 1024,
       acceptedTypes = [''image/jpeg'', ''image/png'', ''image/jpg''],
       minWidth = 150, minHeight = 180, maxWidth = 2000, maxHeight = 2400,
       recommendedWidth = 300, recommendedHeight = 360,
       aspectRatioMin = 6 / 10, aspectRatioMax = 1 \<rparr>"

definition signature_constraints :: constraints where
  "signature_constraints =
     \<lparr> maxSizeMB = 2, maxSizeBytes = 2 * 1024 * 1024,
       acceptedTypes = [''image/jpeg'', ''image/png'', ''image/jpg''],
       minWidth = 50, minHeight = 20, maxWidth = 2000, maxHeight = 1000,
       recommendedWidth = 400, recommendedHeight = 150,
       aspectRatioMin = 5 / 10, aspectRatioMax = 8 \<rparr>"

definition constraints_of :: "image_type \<Rightarrow> constraints" where
  "constraints_of t = (case t of Photo \<Rightarrow> photo_constraints | Signature \<Rightarrow> signature_constraints)"

text \<open>The two checks made before the decoder is asked: file type, then file size.\<close>

definition type_errors :: "constraints \<Rightarrow> image_file \<Rightarrow> validation_error list" where
  "type_errors c f =
     (if file_type f \<notin> set (acceptedTypes c)
      then [InvalidFileType (if file_type f = [] then ''unknown'' else file_type f)]
      else [])"

definition size_errors :: "constraints \<Rightarrow> image_file \<Rightarrow> validation_error list" where
  "size_errors c f =
     (if file_size f > maxSizeBytes c then [FileSizeExceeds (file_size f) (maxSizeMB c)] else [])"

text \<open>The body of \<open>img.onload\<close>: one more error, up to two warnings.\<close>

definition dimension_errors :: "constraints \<Rightarrow> nat \<Rightarrow> nat \<Rightarrow> validation_error list" where
  "dimension_errors c w h =
     (if w < minWidth c \<or> h < minHeight c
      then [ImageTooSmall w h (minWidth c) (minHeight c)] else [])"

definition dimension_warnings :: "constraints \<Rightarrow> nat \<Rightarrow> nat \<Rightarrow> validation_warning list" where
  "dimension_warnings c w h =
     (if w > maxWidth c \<or> h > maxHeight c
      then [ImageVeryLarge w h (recommendedWidth c) (recommendedHeight c)] else [])"

definition aspect_warnings ::
  "constraints \<Rightarrow> image_type \<Rightarrow> nat \<Rightarrow> nat \<Rightarrow> validation_warning list" where
  "aspect_warnings c t w h =
     (let aspectRatio = js_div w h
      in if js_less aspectRatio (aspectRatioMin c) \<or> js_greater aspectRatio (aspectRatioMax c)
         then [UnusualAspectRatio aspectRatio t] else [])"

definition validateImage ::
  "image_file \<Rightarrow> image_type \<Rightarrow> (nat \<times> nat) option \<Rightarrow> image_validation_result" where
  "validateImage f t decoded =
     (let c = constraints_of t;
          errs = type_errors c f @ size_errors c f
      in case decoded of
           Some (w, h) \<Rightarrow>
             (let errs' = errs @ dimension_errors c w h;
                  warns = dimension_warnings c w h @ aspect_warnings c t w h
              in \<lparr> valid = (length errs' = 0), errors = errs', warnings = warns,
                   dimensions = Some (w, h) \<rparr>)
         | None \<Rightarrow>
             \<lparr> valid = False, errors = errs @ [CouldNotRead], warnings = [],
               dimensions = None \<rparr>)"


section \<open>Data URLs (\<open>dataUrlToUint8Array\<close>, \<open>getImageType\<close>)\<close>

text \<open>
  A JavaScript string is modelled as a \<open>string\<close>, a list of 8-bit characters: the
  strings handled here are data URLs and the binary strings that \<open>atob\<close> returns,
  whose code units are all below 256. A \<open>Uint8Array\<close> is a list of bytes.
\<close>

type_synonym byte = "8 word"

datatype js_error = InvalidCharacterError | TypeError | Thrown string

text \<open>\<open>s.split(",")\<close>: the pieces of \<open>s\<close> between commas, at least one piece.\<close>

fun split_comma :: "string \<Rightarrow> string list" where
  "split_comma [] = [[]]"
| "split_comma (c # cs) =
     (if c = CHR '','' then [] # split_comma cs
      else (case split_comma cs of
              p # ps \<Rightarrow> (c # p) # ps
            | [] \<Rightarrow> [[c]]))"

text \<open>
  \<open>atob\<close> is the browser's forgiving base64 decoder: it removes ASCII whitespace; if
  the length is then a multiple of 4 it removes one or two trailing \<open>=\<close>; it throws
  \<open>InvalidCharacterError\<close> if the length leaves remainder 1 modulo 4 or if a
  character outside the base64 alphabet remains; otherwise it reads 6 bits per
  character, emits a byte for every 8 bits and drops the 4 or 2 bits left over.
\<close>

definition is_ascii_whitespace :: "char \<Rightarrow> bool" where
  "is_ascii_whitespace c \<longleftrightarrow> (of_char c :: nat) \<in> {9, 10, 12, 13, 32}"

definition b64_value :: "char \<Rightarrow> nat option" where
  "b64_value c =
     (let n = (of_char c :: nat)
      in if 65 \<le> n \<and> n \<le> 90 then Some (n - 65)
         else if 97 \<le> n \<and> n \<le> 122 then Some (n - 71)
         else if 48 \<le> n \<and> n \<le> 57 then Some (n + 4)
         else if n = 43 then Some 62
         else if n = 47 then Some 63
         else None)"

fun b64_values :: "string \<Rightarrow> nat list option" where
  "b64_values [] = Some []"
| "b64_values (c # cs) =
     (case b64_value c of
        None \<Rightarrow> None
      | Some v \<Rightarrow> (case b64_values cs of None \<Rightarrow> None | Some vs \<Rightarrow> Some (v # vs)))"

definition strip_padding :: "string \<Rightarrow> string" where
  "strip_padding s =
     (let r = rev s
      in if length s mod 4 = 0 then
           (if take 2 r = ''=='' then rev (drop 2 r)
            else if take 1 r = ''='' then rev (drop 1 r)
            else s)
         else s)"

fun decode_sextets :: "nat list \<Rightarrow> nat list" where
  "decode_sextets (a # b # c # d # rest) =
     (let n = ((a * 64 + b) * 64 + c) * 64 + d
      in [n div 65536, n div 256 mod 256, n mod 256] @ decode_sextets rest)"
| "decode_sextets [a, b, c] =
     (let n = ((a * 64 + b) * 64 + c) div 4
      in [n div 256, n mod 256])"
| "decode_sextets [a, b] = [(a * 64 + b) div 16]"
| "decode_sextets [a] = []"
| "decode_sextets [] = []"

definition atob :: "string \<Rightarrow> js_error + string" where
  "atob s =
     (let stripped = strip_padding (filter (\<lambda>c. \<not> is_ascii_whitespace c) s)
      in if length stripped mod 4 = 1 then Inl InvalidCharacterError
         else (case b64_values stripped of
                 None \<Rightarrow> Inl InvalidCharacterError
               | Some vs \<Rightarrow> Inr (map char_of (decode_sextets vs))))"

text \<open>
  \<open>dataUrlToUint8Array\<close>: the second piece of the split is decoded by \<open>atob\<close>, and
  the loop copies the code of every character of the binary string into the array.
  When the URL has no comma the second piece is \<open>undefined\<close>, which \<open>atob\<close>
  receives as the string \<open>undefined\<close>.
\<close>

definition dataUrlToUint8Array :: "string \<Rightarrow> js_error + byte list" where
  "dataUrlToUint8Array dataUrl =
     (let base64 = (case split_comma dataUrl of _ # b # _ \<Rightarrow> b | _ \<Rightarrow> ''undefined'')
      in case atob base64 of
           Inl e \<Rightarrow> Inl e
         | Inr binary \<Rightarrow> Inr (map (\<lambda>c. word_of_nat (of_char c)) binary))"

text \<open>\<open>s.includes(pat)\<close>: \<open>pat\<close> occurs in \<open>s\<close> as a contiguous substring.\<close>

fun string_includes :: "string \<Rightarrow> string \<Rightarrow> bool" where
  "string_includes [] pat = (pat = [])"
| "string_includes (c # cs) pat = (take (length pat) (c # cs) = pat \<or> string_includes cs pat)"

definition getImageType :: "string \<Rightarrow> string" where
  "getImageType dataUrl = (if string_includes dataUrl ''image/png'' then ''png'' else ''jpg'')"

text \<open>
  The base64 encoding of a byte array (RFC 4648), which the browser applies when it
  builds a data URL: three bytes give four characters of the alphabet, and a last group
  of one or two bytes gives two or three characters followed by \<open>==\<close> or \<open>=\<close>.
\<close>

definition b64_char :: "nat \<Rightarrow> char" where
  "b64_char n =
     (if n < 26 then char_of (n + 65)
      else if n < 52 then char_of (n + 71)
      else if n < 62 then char_of (n - 4)
      else if n = 62 then CHR ''+''
      else CHR ''/'')"

fun sextets_of :: "nat list \<Rightarrow> nat list" where
  "sextets_of (a # b # c # rest) =
     [a div 4, (a mod 4) * 16 + b div 16, (b mod 16) * 4 + c div 64, c mod 64] @ sextets_of rest"
| "sextets_of [a, b] = [a div 4, (a mod 4) * 16 + b div 16, (b mod 16) * 4]"
| "sextets_of [a] = [a div 4, (a mod 4) * 16]"
| "sextets_of [] = []"

definition base64_encode :: "byte list \<Rightarrow> string" where
  "base64_encode bs =
     map b64_char (sextets_of (map unat bs))
     @ replicate ((3 - length bs mod 3) mod 3) CHR ''=''"

text \<open>
  The media type named in the header of a data URL
  \<open>data:<media type>;base64,<payload>\<close>: the text between \<open>data:\<close> and the first
  \<open>;\<close> or \<open>,\<close>. This is the MIME kind of the asset that the URL carries.
\<close>

definition header_media_type :: "string \<Rightarrow> string" where
  "header_media_type dataUrl =
     takeWhile (\<lambda>c. c \<noteq> CHR '';'' \<and> c \<noteq> CHR '','') (drop 5 dataUrl)"


section \<open>Text rasteriser (\<open>renderTextToImage\<close>)\<close>

text \<open>
  JavaScript numbers are modelled as rationals; the rounding of doubles is not
  modelled. A canvas is modelled by what the source sets on it: its size, the drawing
  state of its 2d context and the drawing calls made. \<open>createCanvas\<close> is a canvas as
  \<open>document.createElement("canvas")\<close> returns it.
\<close>

datatype canvas_op = ClearRect rat rat rat rat | FillText string rat rat

record canvas =
  canvas_width :: rat
  canvas_height :: rat
  fillStyle :: string
  font_px :: rat
  font_family :: "string list"
  textBaseline :: string
  ops :: "canvas_op list"

definition createCanvas :: canvas where
  "createCanvas =
     \<lparr> canvas_width = 300, canvas_height = 150, fillStyle = ''#000000'', font_px = 10,
       font_family = [''sans-serif''], textBaseline = ''alphabetic'', ops = [] \<rparr>"

definition scale :: rat where
  "scale = 4"

definition fontSize :: "rat \<Rightarrow> rat" where
  "fontSize fieldHeight = fieldHeight * (85 / 100)"

text \<open>
  The canvas once its width and height are assigned (lines 26 to 28). The model keeps
  the numbers that the source assigns; the browser stores them as integers.
\<close>

definition sized_canvas :: "rat \<Rightarrow> rat \<Rightarrow> canvas" where
  "sized_canvas fieldWidth fieldHeight =
     createCanvas \<lparr> canvas_width := fieldWidth * scale, canvas_height := fieldHeight * scale \<rparr>"

text \<open>The canvas once the text is drawn on it (lines 34 to 40).\<close>

definition painted_canvas :: "string \<Rightarrow> rat \<Rightarrow> rat \<Rightarrow> canvas" where
  "painted_canvas text fieldWidth fieldHeight =
     (let canvasWidth = fieldWidth * scale;
          canvasHeight = fieldHeight * scale
      in (sized_canvas fieldWidth fieldHeight)
           \<lparr> fillStyle := ''#000000'',
             font_px := fontSize fieldHeight * scale,
             font_family := [''Noto Sans Bengali'', ''Noto Sans'', ''Arial'', ''sans-serif''],
             textBaseline := ''middle'',
             ops := [ClearRect 0 0 canvasWidth canvasHeight,
                     FillText text (1 * scale) (canvasHeight / 2)] \<rparr>)"


section \<open>Document composer (\<open>fillPdfForm\<close>)\<close>

text \<open>
  The module \<open>form-fields\<close>, which \<open>pdf-utils.ts\<close> imports, is a table of constants;
  the model takes it as a parameter.
\<close>

record form_field =
  field_id :: string
  pdfFieldId :: string

record field_rect =
  rect_x :: rat
  rect_y :: rat
  rect_w :: rat
  rect_h :: rat

record box =
  box_x :: rat
  box_y :: rat
  box_width :: rat
  box_height :: rat

record form_fields_module =
  FORM_FIELDS :: "form_field list"
  FIELD_COORDS :: "string \<rightharpoonup> field_rect"
  PHOTO_BOX :: box
  SIGNATURE_POSITIONS_student :: box

type_synonym form_data = "string \<rightharpoonup> string"

record image_data =
  photo :: "string option"
  signature :: "string option"

text \<open>
  The document in memory, as far as the source acts on it: whether it has a first
  page, the images embedded in it, the images drawn on the first page with their boxes,
  and whether the form widgets have been flattened.
\<close>

datatype image = PngImage "byte list" | JpgImage "byte list"

record pdf_doc =
  has_page :: bool
  embedded :: "image list"
  drawn :: "(image \<times> box) list"
  flattened :: bool

text \<open>
  What the browser and the PDF library answer. \<open>loadTemplate\<close> stands for lines 58 to
  67 (fetching the template, parsing it, getting its form and its pages);
  \<open>embedPngFault\<close> and \<open>embedJpgFault\<close> say which byte arrays the two image parsers
  reject; \<open>flattenFault\<close> says whether flattening throws; \<open>save\<close> serialises.
\<close>

record platform =
  loadTemplate :: "js_error + pdf_doc"
  getContext :: "canvas \<Rightarrow> bool"
  toDataURL :: "canvas \<Rightarrow> js_error + string"
  embedPngFault :: "byte list \<Rightarrow> js_error option"
  embedJpgFault :: "byte list \<Rightarrow> js_error option"
  flattenFault :: "pdf_doc \<Rightarrow> js_error option"
  save :: "pdf_doc \<Rightarrow> js_error + byte list"

definition renderTextToImage :: "platform \<Rightarrow> string \<Rightarrow> rat \<Rightarrow> rat \<Rightarrow> js_error + string" where
  "renderTextToImage P text fieldWidth fieldHeight =
     (if \<not> getContext P (sized_canvas fieldWidth fieldHeight) then Inr []
      else toDataURL P (painted_canvas text fieldWidth fieldHeight))"

text \<open>
  A statement that can throw returns its outcome together with the document as the
  statement left it: what was done before the throw stays done.
\<close>

definition embedPng :: "platform \<Rightarrow> byte list \<Rightarrow> pdf_doc \<Rightarrow> (js_error + image) \<times> pdf_doc" where
  "embedPng P bytes d =
     (case embedPngFault P bytes of
        Some e \<Rightarrow> (Inl e, d)
      | None \<Rightarrow> (Inr (PngImage bytes), d \<lparr> embedded := embedded d @ [PngImage bytes] \<rparr>))"

definition embedJpg :: "platform \<Rightarrow> byte list \<Rightarrow> pdf_doc \<Rightarrow> (js_error + image) \<times> pdf_doc" where
  "embedJpg P bytes d =
     (case embedJpgFault P bytes of
        Some e \<Rightarrow> (Inl e, d)
      | None \<Rightarrow> (Inr (JpgImage bytes), d \<lparr> embedded := embedded d @ [JpgImage bytes] \<rparr>))"

text \<open>\<open>page.drawImage\<close>, where \<open>page\<close> is \<open>pdfDoc.getPages()[0]\<close>, undefined if there is no page.\<close>

definition drawImage :: "image \<Rightarrow> box \<Rightarrow> pdf_doc \<Rightarrow> (js_error + unit) \<times> pdf_doc" where
  "drawImage img b d =
     (if has_page d then (Inr (), d \<lparr> drawn := drawn d @ [(img, b)] \<rparr>)
      else (Inl TypeError, d))"

text \<open>
  Lines 70 to 76: \<open>pdfFieldData\<close> is an object used as a dictionary. An assignment to
  a key that is present replaces the value and keeps the key's place. The dictionaries
  of the source (\<open>formValues\<close>, \<open>FIELD_COORDS\<close>, \<open>pdfFieldData\<close>) are modelled by
  their own properties; names inherited from \<open>Object.prototype\<close> are not modelled.
\<close>

fun assign :: "(string \<times> string) list \<Rightarrow> string \<Rightarrow> string \<Rightarrow> (string \<times> string) list" where
  "assign [] k v = [(k, v)]"
| "assign ((k', v') # kvs) k v =
     (if k' = k then (k, v) # kvs else (k', v') # assign kvs k v)"

definition buildPdfFieldData :: "form_field list \<Rightarrow> form_data \<Rightarrow> (string \<times> string) list" where
  "buildPdfFieldData formFields formValues =
     foldl (\<lambda>pdfFieldData field.
              case formValues (field_id field) of
                None \<Rightarrow> pdfFieldData
              | Some v \<Rightarrow> if v \<noteq> [] then assign pdfFieldData (pdfFieldId field) v
                          else pdfFieldData)
           [] formFields"

text \<open>
  \<open>Object.entries\<close> lists the keys that are array indices (canonical decimal numerals
  up to \<open>2^32 - 2\<close>) first, in ascending numeric order, then the other keys in the
  order in which they were created.
\<close>

definition decimal :: "string \<Rightarrow> nat" where
  "decimal k = foldl (\<lambda>n c. 10 * n + (of_char c - 48)) 0 k"

definition array_index :: "string \<Rightarrow> nat option" where
  "array_index k =
     (if k \<noteq> [] \<and> (\<forall>c\<in>set k. 48 \<le> (of_char c :: nat) \<and> (of_char c :: nat) \<le> 57)
         \<and> (k = ''0'' \<or> hd k \<noteq> CHR ''0'') \<and> decimal k \<le> 2 ^ 32 - 2
      then Some (decimal k) else None)"

definition index_key :: "string \<times> string \<Rightarrow> nat" where
  "index_key e = (case array_index (fst e) of Some n \<Rightarrow> n | None \<Rightarrow> 0)"

definition object_entries :: "(string \<times> string) list \<Rightarrow> (string \<times> string) list" where
  "object_entries obj =
     sort_key index_key (filter (\<lambda>e. array_index (fst e) \<noteq> None) obj)
     @ filter (\<lambda>e. array_index (fst e) = None) obj"

text \<open>The body of the \<open>try\<close> of lines 83 to 94.\<close>

definition rect_box :: "field_rect \<Rightarrow> box" where
  "rect_box coords =
     \<lparr> box_x = rect_x coords, box_y = rect_y coords,
       box_width = rect_w coords, box_height = rect_h coords \<rparr>"

definition tryDrawField ::
  "platform \<Rightarrow> string \<Rightarrow> field_rect \<Rightarrow> pdf_doc \<Rightarrow> (js_error + unit) \<times> pdf_doc" where
  "tryDrawField P fieldValue coords d =
     (case renderTextToImage P fieldValue (rect_w coords) (rect_h coords) of
        Inl e \<Rightarrow> (Inl e, d)
      | Inr pngDataUrl \<Rightarrow>
          if pngDataUrl \<noteq> [] then
            (case dataUrlToUint8Array pngDataUrl of
               Inl e \<Rightarrow> (Inl e, d)
             | Inr pngBytes \<Rightarrow>
                 (case embedPng P pngBytes d of
                    (Inl e, d') \<Rightarrow> (Inl e, d')
                  | (Inr pngImage, d') \<Rightarrow> drawImage pngImage (rect_box coords) d'))
          else (Inr (), d))"

text \<open>
  One turn of the loop of lines 79 to 98: a field without coordinates is passed over;
  otherwise the \<open>try\<close> body runs, and the \<open>catch\<close> only writes to the console.
\<close>

definition drawField ::
  "platform \<Rightarrow> form_fields_module \<Rightarrow> pdf_doc \<Rightarrow> string \<times> string \<Rightarrow> pdf_doc" where
  "drawField P M d entry =
     (case FIELD_COORDS M (fst entry) of
        None \<Rightarrow> d
      | Some coords \<Rightarrow> snd (tryDrawField P (snd entry) coords d))"

fun drawFields ::
  "platform \<Rightarrow> form_fields_module \<Rightarrow> (string \<times> string) list \<Rightarrow> pdf_doc \<Rightarrow> pdf_doc" where
  "drawFields P M [] d = d"
| "drawFields P M (entry # entries) d = drawFields P M entries (drawField P M d entry)"

text \<open>Lines 101 to 105. A flatten that throws is taken to leave the widgets unflattened.\<close>

definition flattenForm :: "platform \<Rightarrow> pdf_doc \<Rightarrow> pdf_doc" where
  "flattenForm P d =
     (case flattenFault P d of
        None \<Rightarrow> d \<lparr> flattened := True \<rparr>
      | Some e \<Rightarrow> d)"

text \<open>
  The body of the \<open>try\<close> of lines 109 to 125, and of lines 133 to 150: the source has
  the same statements twice, for the photo and for the signature.
\<close>

definition tryEmbedAsset ::
  "platform \<Rightarrow> string \<Rightarrow> box \<Rightarrow> pdf_doc \<Rightarrow> (js_error + unit) \<times> pdf_doc" where
  "tryEmbedAsset P dataUrl b d =
     (case dataUrlToUint8Array dataUrl of
        Inl e \<Rightarrow> (Inl e, d)
      | Inr bytes \<Rightarrow>
          (case (if getImageType dataUrl = ''png'' then embedPng P bytes d
                 else embedJpg P bytes d) of
             (Inl e, d') \<Rightarrow> (Inl e, d')
           | (Inr img, d') \<Rightarrow> drawImage img b d'))"

definition embedAsset :: "platform \<Rightarrow> string option \<Rightarrow> box \<Rightarrow> pdf_doc \<Rightarrow> pdf_doc" where
  "embedAsset P asset b d =
     (case asset of
        None \<Rightarrow> d
      | Some dataUrl \<Rightarrow> if dataUrl \<noteq> [] then snd (tryEmbedAsset P dataUrl b d) else d)"

text \<open>Lines 70 to 154: everything between loading the template and saving the document.\<close>

definition fill_document ::
  "platform \<Rightarrow> form_fields_module \<Rightarrow> form_data \<Rightarrow> image_data \<Rightarrow> pdf_doc \<Rightarrow> pdf_doc" where
  "fill_document P M formValues images pdfDoc =
     (let pdfFieldData = buildPdfFieldData (FORM_FIELDS M) formValues;
          d1 = drawFields P M (object_entries pdfFieldData) pdfDoc;
          d2 = flattenForm P d1;
          d3 = embedAsset P (photo images) (PHOTO_BOX M) d2;
          d4 = embedAsset P (signature images) (SIGNATURE_POSITIONS_student M) d3
      in d4)"

definition fillPdfForm ::
  "platform \<Rightarrow> form_fields_module \<Rightarrow> form_data \<Rightarrow> image_data \<Rightarrow> js_error + byte list" where
  "fillPdfForm P M formValues images =
     (case loadTemplate P of
        Inl e \<Rightarrow> Inl e
      | Inr pdfDoc \<Rightarrow> save P (fill_document P M formValues images pdfDoc))"


section \<open>What a call draws\<close>

text \<open>
  The image that the \<open>try\<close> body of a text field produces for a value and a
  rectangle when nothing in it fails: the canvas is available and gives a data URL,
  the URL decodes, and the PNG parser accepts the bytes.
\<close>

definition field_raster :: "platform \<Rightarrow> string \<Rightarrow> field_rect \<Rightarrow> image option" where
  "field_raster P v coords =
     (case renderTextToImage P v (rect_w coords) (rect_h coords) of
        Inl e \<Rightarrow> None
      | Inr url \<Rightarrow>
          if url = [] then None
          else (case dataUrlToUint8Array url of
                  Inl e \<Rightarrow> None
                | Inr bytes \<Rightarrow>
                    (case embedPngFault P bytes of
                       Some e \<Rightarrow> None
                     | None \<Rightarrow> Some (PngImage bytes))))"

text \<open>The overlay of a field of the table: its raster, placed at the field's rectangle.\<close>

definition field_overlay ::
  "platform \<Rightarrow> form_fields_module \<Rightarrow> form_data \<Rightarrow> form_field \<Rightarrow> (image \<times> box) option" where
  "field_overlay P M formValues f =
     (case formValues (field_id f) of
        None \<Rightarrow> None
      | Some v \<Rightarrow>
          if v = [] then None
          else (case FIELD_COORDS M (pdfFieldId f) of
                  None \<Rightarrow> None
                | Some coords \<Rightarrow>
                    (case field_raster P v coords of
                       None \<Rightarrow> None
                     | Some img \<Rightarrow> Some (img, rect_box coords))))"

text \<open>The entry of \<open>pdfFieldData\<close> that a field of the table gives rise to.\<close>

definition field_entry :: "form_data \<Rightarrow> form_field \<Rightarrow> (string \<times> string) option" where
  "field_entry formValues f =
     (case formValues (field_id f) of
        None \<Rightarrow> None
      | Some v \<Rightarrow> if v \<noteq> [] then Some (pdfFieldId f, v) else None)"

text \<open>The overlay of one entry of \<open>pdfFieldData\<close>, a field name with its value.\<close>

definition entry_overlay ::
  "platform \<Rightarrow> form_fields_module \<Rightarrow> string \<times> string \<Rightarrow> (image \<times> box) option" where
  "entry_overlay P M entry =
     (case FIELD_COORDS M (fst entry) of
        None \<Rightarrow> None
      | Some coords \<Rightarrow>
          (case field_raster P (snd entry) coords of
             None \<Rightarrow> None
           | Some img \<Rightarrow> Some (img, rect_box coords)))"

text \<open>The image that the \<open>try\<close> body of the photo or signature produces when nothing fails.\<close>

definition asset_image :: "platform \<Rightarrow> string \<Rightarrow> image option" where
  "asset_image P dataUrl =
     (case dataUrlToUint8Array dataUrl of
        Inl e \<Rightarrow> None
      | Inr bytes \<Rightarrow>
          if getImageType dataUrl = ''png''
          then (case embedPngFault P bytes of Some e \<Rightarrow> None | None \<Rightarrow> Some (PngImage bytes))
          else (case embedJpgFault P bytes of Some e \<Rightarrow> None | None \<Rightarrow> Some (JpgImage bytes)))"

definition asset_overlay :: "platform \<Rightarrow> string option \<Rightarrow> box \<Rightarrow> (image \<times> box) list" where
  "asset_overlay P asset b =
     (case asset of
        None \<Rightarrow> []
      | Some dataUrl \<Rightarrow>
          if dataUrl = [] then []
          else (case asset_image P dataUrl of None \<Rightarrow> [] | Some img \<Rightarrow> [(img, b)]))"


section \<open>Example inputs\<close>

text \<open>
  A table with the one rectangle that the repository records for the Bangla name
  field, a second field without coordinates, and boxes for the photo and the signature.
\<close>

definition example_module :: form_fields_module where
  "example_module =
     \<lparr> FORM_FIELDS = [\<lparr> field_id = ''name_bn'', pdfFieldId = ''text_3zwog'' \<rparr>,
                      \<lparr> field_id = ''name_en'', pdfFieldId = ''text_name'' \<rparr>],
       FIELD_COORDS = [''text_3zwog'' \<mapsto> \<lparr> rect_x = 193, rect_y = 584, rect_w = 364, rect_h = 11 \<rparr>],
       PHOTO_BOX = \<lparr> box_x = 450, box_y = 650, box_width = 100, box_height = 120 \<rparr>,
       SIGNATURE_POSITIONS_student =
         \<lparr> box_x = 100, box_y = 80, box_width = 120, box_height = 40 \<rparr> \<rparr>"

definition example_values :: form_data where
  "example_values = [''name_bn'' \<mapsto> ''abc'', ''name_en'' \<mapsto> ''Abc'']"

definition blank_template :: pdf_doc where
  "blank_template = \<lparr> has_page = True, embedded = [], drawn = [], flattened = False \<rparr>"

text \<open>A serialiser for the examples: one byte, the number of images drawn.\<close>

definition count_drawn :: "pdf_doc \<Rightarrow> js_error + byte list" where
  "count_drawn d = Inr [of_nat (length (drawn d))]"

definition png_signature :: "byte list" where
  "png_signature = [137, 80, 78, 71, 13, 10, 26, 10]"

text \<open>
  A platform on which everything works: the canvas gives a data URL whose payload
  is the PNG signature, the PNG parser accepts the byte arrays that start with that
  signature, and the JPEG parser those that start with the marker \<open>FF D8\<close>.
\<close>

definition working_platform :: platform where
  "working_platform =
     \<lparr> loadTemplate = Inr blank_template,
       getContext = (\<lambda>c. True),
       toDataURL = (\<lambda>c. Inr ''data:image/png;base64,iVBORw0KGgo=''),
       embedPngFault =
         (\<lambda>bytes. if take 8 bytes = png_signature then None else Some (Thrown ''not a PNG'')),
       embedJpgFault =
         (\<lambda>bytes. if take 2 bytes = [255, 216] then None else Some (Thrown ''not a JPEG'')),
       flattenFault = (\<lambda>d. None),
       save = count_drawn \<rparr>"

text \<open>The same platform without a 2d context.\<close>

definition no_canvas_platform :: platform where
  "no_canvas_platform = working_platform \<lparr> getContext := (\<lambda>c. False) \<rparr>"

text \<open>A platform on which every step between loading and saving fails.\<close>

definition faulty_platform :: platform where
  "faulty_platform =
     working_platform
       \<lparr> embedPngFault := (\<lambda>bytes. Some (Thrown ''bad PNG'')),
         embedJpgFault := (\<lambda>bytes. Some (Thrown ''bad JPEG'')),
         flattenFault := (\<lambda>d. Some (Thrown ''flatten'')) \<rparr>"

definition example_images :: image_data where
  "example_images =
     \<lparr> photo = Some ''data:image/jpeg;base64,/9j/4A=='',
       signature = Some ''data:image/png;base64,iVBORw0KGgo='' \<rparr>"

text \<open>
  A data URL of media type \<open>image/jpeg\<close> whose payload, the encoding of twelve bytes
  that start with the JPEG marker, spells \<open>image/png\<close>.
\<close>

definition jpeg_spelling_png :: string where
  "jpeg_spelling_png = ''data:image/jpeg;base64,/9j/image/pngAAA''"


section \<open>Properties of image validation\<close>

lemma validateImage_loaded:
  "validateImage f t (Some (w, h)) =
     \<lparr> valid = (type_errors (constraints_of t) f @ size_errors (constraints_of t) f
                  @ dimension_errors (constraints_of t) w h = []),
       errors = type_errors (constraints_of t) f @ size_errors (constraints_of t) f
                  @ dimension_errors (constraints_of t) w h,
       warnings = dimension_warnings (constraints_of t) w h
                  @ aspect_warnings (constraints_of t) t w h,
       dimensions = Some (w, h) \<rparr>"
  by (simp add: validateImage_def Let_def)

lemma validateImage_failed:
  "validateImage f t None =
     \<lparr> valid = False,
       errors = type_errors (constraints_of t) f @ size_errors (constraints_of t) f
                  @ [CouldNotRead],
       warnings = [], dimensions = None \<rparr>"
  by (simp add: validateImage_def Let_def)

lemma size_error_present:
  "file_size f > maxSizeBytes (constraints_of t) \<Longrightarrow>
   FileSizeExceeds (file_size f) (maxSizeMB (constraints_of t))
     \<in> set (errors (validateImage f t decoded))"
  by (cases decoded) (auto simp: validateImage_loaded validateImage_failed size_errors_def)

lemma valid_iff_no_errors:
  "valid (validateImage f t decoded) \<longleftrightarrow> errors (validateImage f t decoded) = []"
  by (cases decoded) (auto simp: validateImage_loaded validateImage_failed)

text \<open>
  Claim C3. Under the photo profile, a file of more than 5 MB (5 * 1024 * 1024 bytes)
  is reported invalid, with the size error, whatever the decoder answers (any
  dimensions, or a failure to decode); and an image that decodes to a width below 150
  or a height below 180 is reported invalid, with the ``too small'' error.
\<close>

theorem validateImage_photo_hard_errors:
  "(file_size f > 5 * 1024 * 1024 \<longrightarrow>
      \<not> valid (validateImage f Photo decoded) \<and>
      FileSizeExceeds (file_size f) 5 \<in> set (errors (validateImage f Photo decoded)))
   \<and> (w < 150 \<or> h < 180 \<longrightarrow>
      \<not> valid (validateImage f Photo (Some (w, h))) \<and>
      ImageTooSmall w h 150 180 \<in> set (errors (validateImage f Photo (Some (w, h)))))"
proof (intro conjI impI)
  assume big: "file_size f > 5 * 1024 * 1024"
  then have "file_size f > maxSizeBytes (constraints_of Photo)"
    by (simp add: constraints_of_def photo_constraints_def)
  from size_error_present [OF this, of decoded]
  show in_errs: "FileSizeExceeds (file_size f) 5 \<in> set (errors (validateImage f Photo decoded))"
    by (simp add: constraints_of_def photo_constraints_def)
  then have "errors (validateImage f Photo decoded) \<noteq> []" by auto
  then show "\<not> valid (validateImage f Photo decoded)"
    by (simp add: valid_iff_no_errors)
next
  assume small: "w < 150 \<or> h < 180"
  then show "ImageTooSmall w h 150 180 \<in> set (errors (validateImage f Photo (Some (w, h))))"
    by (auto simp: validateImage_loaded dimension_errors_def constraints_of_def
        photo_constraints_def)
  from small show "\<not> valid (validateImage f Photo (Some (w, h)))"
    by (auto simp: validateImage_loaded dimension_errors_def constraints_of_def
        photo_constraints_def)
qed

theorem validateImage_photo_hard_errors_witness:
  "file_size \<lparr>file_type = ''image/jpeg'', file_size = 6 * 1024 * 1024\<rparr> > 5 * 1024 * 1024
   \<and> \<not> valid (validateImage \<lparr>file_type = ''image/jpeg'', file_size = 6 * 1024 * 1024\<rparr>
                  Photo (Some (300, 360)))
   \<and> ((100::nat) < 150 \<or> (100::nat) < 180)
   \<and> \<not> valid (validateImage \<lparr>file_type = ''image/png'', file_size = 1024\<rparr>
                  Photo (Some (100, 100)))
   \<and> ImageTooSmall 100 100 150 180
       \<in> set (errors (validateImage \<lparr>file_type = ''image/png'', file_size = 1024\<rparr>
                  Photo (Some (100, 100))))"
  using validateImage_photo_hard_errors
          [of "\<lparr>file_type = ''image/jpeg'', file_size = 6 * 1024 * 1024\<rparr>" "Some (300, 360)"
              300 360]
        validateImage_photo_hard_errors
          [of "\<lparr>file_type = ''image/png'', file_size = 1024\<rparr>" "Some (100, 100)" 100 100]
  by simp

lemma validateImage_small_signature:
  "valid (validateImage \<lparr>file_type = ''image/png'', file_size = 1024\<rparr> Signature
            (Some (100, 100)))"
  by (simp add: validateImage_loaded type_errors_def size_errors_def dimension_errors_def
      constraints_of_def signature_constraints_def)

lemma type_errors_empty:
  "type_errors c f = [] \<longleftrightarrow> file_type f \<in> set (acceptedTypes c)"
  by (simp add: type_errors_def)

lemma size_errors_empty:
  "size_errors c f = [] \<longleftrightarrow> file_size f \<le> maxSizeBytes c"
  by (simp add: size_errors_def not_less)

lemma dimension_errors_empty:
  "dimension_errors c w h = [] \<longleftrightarrow> minWidth c \<le> w \<and> minHeight c \<le> h"
  by (auto simp: dimension_errors_def)

lemma aspect_three_warns_photo:
  assumes "0 < h"
  shows "aspect_warnings (constraints_of Photo) Photo (3 * h) h = [UnusualAspectRatio (Finite 3) Photo]"
proof -
  from assms have "js_div (3 * h) h = Finite 3"
    by (simp add: js_div_def)
  then show ?thesis
    by (simp add: aspect_warnings_def constraints_of_def photo_constraints_def)
qed

text \<open>
  Claim C4. Whether a result is valid depends on the hard conditions alone (accepted
  file type, size within the cap, image decoded, width and height at least the
  minimum): neither the maximum dimensions nor the aspect-ratio range occurs in the
  condition, so no warning invalidates a result. In particular an image of aspect
  ratio 3 (width \<open>3 * h\<close>, height \<open>h\<close>) under the photo profile carries the
  aspect-ratio warning, and is valid whenever its error list is empty.
\<close>

theorem validateImage_warnings_never_invalidate:
  "(valid (validateImage f t decoded) \<longleftrightarrow>
      file_type f \<in> set (acceptedTypes (constraints_of t)) \<and>
      file_size f \<le> maxSizeBytes (constraints_of t) \<and>
      (\<exists>w h. decoded = Some (w, h) \<and>
             minWidth (constraints_of t) \<le> w \<and> minHeight (constraints_of t) \<le> h))
   \<and> (0 < h \<longrightarrow>
        UnusualAspectRatio (Finite 3) Photo
          \<in> set (warnings (validateImage f Photo (Some (3 * h, h)))) \<and>
        (errors (validateImage f Photo (Some (3 * h, h))) = [] \<longrightarrow>
           valid (validateImage f Photo (Some (3 * h, h)))))"
proof (intro conjI impI)
  show "valid (validateImage f t decoded) \<longleftrightarrow>
      file_type f \<in> set (acceptedTypes (constraints_of t)) \<and>
      file_size f \<le> maxSizeBytes (constraints_of t) \<and>
      (\<exists>w h. decoded = Some (w, h) \<and>
             minWidth (constraints_of t) \<le> w \<and> minHeight (constraints_of t) \<le> h)"
  proof (cases decoded)
    case None
    then show ?thesis by (simp add: validateImage_failed)
  next
    case (Some d)
    obtain w h where "d = (w, h)" by (cases d)
    with Some show ?thesis
      by (simp add: validateImage_loaded type_errors_empty size_errors_empty
          dimension_errors_empty)
  qed
next
  assume "0 < h"
  then show "UnusualAspectRatio (Finite 3) Photo
          \<in> set (warnings (validateImage f Photo (Some (3 * h, h))))"
    by (simp add: validateImage_loaded aspect_three_warns_photo)
next
  assume "errors (validateImage f Photo (Some (3 * h, h))) = []"
  then show "valid (validateImage f Photo (Some (3 * h, h)))"
    by (simp add: valid_iff_no_errors)
qed

theorem validateImage_warnings_never_invalidate_witness:
  "(0::nat) < 200
   \<and> UnusualAspectRatio (Finite 3) Photo
       \<in> set (warnings (validateImage \<lparr>file_type = ''image/jpeg'', file_size = 1024\<rparr>
                  Photo (Some (3 * 200, 200))))
   \<and> errors (validateImage \<lparr>file_type = ''image/jpeg'', file_size = 1024\<rparr>
                  Photo (Some (3 * 200, 200))) = []
   \<and> valid (validateImage \<lparr>file_type = ''image/jpeg'', file_size = 1024\<rparr>
                  Photo (Some (3 * 200, 200)))"
proof -
  have e: "errors (validateImage \<lparr>file_type = ''image/jpeg'', file_size = 1024\<rparr>
                  Photo (Some (3 * 200, 200))) = []"
    by (simp add: validateImage_loaded type_errors_def size_errors_def dimension_errors_def
        constraints_of_def photo_constraints_def)
  show ?thesis
    using e validateImage_warnings_never_invalidate
            [of "\<lparr>file_type = ''image/jpeg'', file_size = 1024\<rparr>" Photo
                "Some (3 * 200, 200)" 200]
    by (simp add: constraints_of_def photo_constraints_def)
qed

text \<open>
  Claim C9. Every result of \<open>validateImage\<close> is valid exactly when its error list is
  empty, and carries dimensions exactly when the image decoded. When decoding failed,
  the error list is the file-type and file-size errors found before decoding, followed
  by the could-not-read error, and there are no dimensions.
\<close>

theorem validateImage_result_invariant:
  "(valid (validateImage f t decoded) \<longleftrightarrow> errors (validateImage f t decoded) = [])
   \<and> (dimensions (validateImage f t decoded) \<noteq> None \<longleftrightarrow> decoded \<noteq> None)
   \<and> (decoded = None \<longrightarrow>
        errors (validateImage f t decoded)
          = type_errors (constraints_of t) f @ size_errors (constraints_of t) f @ [CouldNotRead]
        \<and> dimensions (validateImage f t decoded) = None)"
proof (cases decoded)
  case None
  then show ?thesis by (simp add: validateImage_failed)
next
  case (Some d)
  obtain w h where "d = (w, h)" by (cases d)
  with Some show ?thesis by (simp add: validateImage_loaded)
qed

theorem validateImage_result_invariant_witness:
  "errors (validateImage \<lparr>file_type = ''text/plain'', file_size = 6 * 1024 * 1024\<rparr> Photo None)
     = [InvalidFileType ''text/plain'', FileSizeExceeds (6 * 1024 * 1024) 5, CouldNotRead]
   \<and> dimensions (validateImage \<lparr>file_type = ''text/plain'', file_size = 6 * 1024 * 1024\<rparr>
        Photo None) = None
   \<and> \<not> valid (validateImage \<lparr>file_type = ''text/plain'', file_size = 6 * 1024 * 1024\<rparr>
        Photo None)"
  using validateImage_result_invariant
          [of "\<lparr>file_type = ''text/plain'', file_size = 6 * 1024 * 1024\<rparr>" Photo None]
  by (simp add: type_errors_def size_errors_def constraints_of_def photo_constraints_def)


section \<open>Properties of the data URL decoder\<close>

subsection \<open>Arithmetic of one base64 group\<close>

lemma group3_raw:
  fixes q r s t u v :: nat
  shows "((q * 64 + (r * 16 + s)) * 64 + (t * 4 + u)) * 64 + v
         = (q * 4 + r) * 65536 + (s * 16 + t) * 256 + (u * 64 + v)"
  by (simp add: algebra_simps)

lemma group3:
  fixes a b c :: nat
  shows "((a div 4 * 64 + ((a mod 4) * 16 + b div 16)) * 64 + ((b mod 16) * 4 + c div 64)) * 64
           + c mod 64
         = a * 65536 + b * 256 + c"
  using group3_raw [of "a div 4" "a mod 4" "b div 16" "b mod 16" "c div 64" "c mod 64"]
  by (simp only: div_mult_mod_eq)

lemma bytes3_hi:
  assumes "b < 256" "c < (256::nat)"
  shows "(a * 65536 + b * 256 + c) div 65536 = a"
proof -
  have "b * 256 + c < 65536" using assms by linarith
  then have "(b * 256 + c + a * 65536) div 65536 = a"
    by (simp only: div_mult_self1 div_less)
  then show ?thesis by (simp add: add.commute add.left_commute)
qed

lemma bytes3_mid:
  assumes "b < 256" "c < (256::nat)"
  shows "(a * 65536 + b * 256 + c) div 256 mod 256 = b"
proof -
  have "(c + (a * 256 + b) * 256) div 256 = a * 256 + b"
    using assms by simp
  moreover have "c + (a * 256 + b) * 256 = a * 65536 + b * 256 + c" by simp
  ultimately have "(a * 65536 + b * 256 + c) div 256 = a * 256 + b" by simp
  then show ?thesis using assms by simp
qed

lemma bytes3_lo:
  assumes "c < (256::nat)"
  shows "(a * 65536 + b * 256 + c) mod 256 = c"
proof -
  have "a * 65536 + b * 256 + c = c + (a * 256 + b) * 256" by simp
  then show ?thesis using assms by (simp only: mod_mult_self1 mod_less)
qed

lemma group2_raw:
  fixes q r s t :: nat
  shows "(q * 64 + (r * 16 + s)) * 64 + t * 4 = ((q * 4 + r) * 256 + (s * 16 + t)) * 4"
  by (simp add: algebra_simps)

lemma group2:
  fixes a b :: nat
  shows "((a div 4 * 64 + ((a mod 4) * 16 + b div 16)) * 64 + (b mod 16) * 4) div 4
         = a * 256 + b"
  using group2_raw [of "a div 4" "a mod 4" "b div 16" "b mod 16"]
  by (simp only: div_mult_mod_eq nonzero_mult_div_cancel_right)

lemma bytes2:
  assumes "b < (256::nat)"
  shows "(a * 256 + b) div 256 = a" and "(a * 256 + b) mod 256 = b"
  using assms by simp_all

lemma group1_raw:
  fixes q r :: nat
  shows "q * 64 + r * 16 = (q * 4 + r) * 16"
  by (simp add: algebra_simps)

lemma group1:
  fixes a :: nat
  shows "(a div 4 * 64 + (a mod 4) * 16) div 16 = a"
  using group1_raw [of "a div 4" "a mod 4"]
  by (simp only: div_mult_mod_eq nonzero_mult_div_cancel_right)

subsection \<open>Decoding the sextets of an encoding\<close>

lemma decode_group4:
  assumes "a < 256" "b < 256" "c < 256"
  shows "decode_sextets (a div 4 # (a mod 4 * 16 + b div 16) # (b mod 16 * 4 + c div 64)
                           # c mod 64 # rest)
         = a # b # c # decode_sextets rest"
  using assms
  by (simp only: decode_sextets.simps Let_def group3 bytes3_hi bytes3_mid bytes3_lo append.simps)

lemma decode_group3:
  assumes "b < 256"
  shows "decode_sextets [a div 4, a mod 4 * 16 + b div 16, b mod 16 * 4] = [a, b]"
  using assms by (simp only: decode_sextets.simps Let_def group2 bytes2)

lemma decode_group2: "decode_sextets [a div 4, a mod 4 * 16] = [a]"
  by (simp only: decode_sextets.simps group1)

lemma decode_sextets_of:
  "\<forall>x\<in>set bs. x < 256 \<Longrightarrow> decode_sextets (sextets_of bs) = bs"
proof (induction bs rule: sextets_of.induct)
  case (1 a b c rest)
  then have "a < 256" "b < 256" "c < 256" "decode_sextets (sextets_of rest) = rest"
    by simp_all
  then show ?case
    by (simp only: sextets_of.simps append.simps decode_group4)
next
  case (2 a b)
  then have "b < 256" by simp
  then show ?case by (simp only: sextets_of.simps decode_group3)
next
  case (3 a)
  show ?case by (simp only: sextets_of.simps decode_group2)
next
  case 4
  show ?case by simp
qed

lemma sextets_of_bound:
  "\<forall>x\<in>set bs. x < 256 \<Longrightarrow> \<forall>v\<in>set (sextets_of bs). v < 64"
proof (induction bs rule: sextets_of.induct)
  case (1 a b c rest)
  have "a mod 4 * 16 + b div 16 < 64" "b mod 16 * 4 + c div 64 < 64" "a div 4 < 64"
    using 1 by (auto simp: less_mult_imp_div_less)
  with 1 show ?case by simp
next
  case (2 a b)
  have "a mod 4 * 16 + b div 16 < 64" "b mod 16 * 4 < 64" "a div 4 < 64"
    using 2 by auto
  then show ?case by simp
next
  case (3 a)
  have "a mod 4 * 16 < 64" "a div 4 < 64"
    using 3 by auto
  then show ?case by simp
next
  case 4
  then show ?case by simp
qed

lemma length_sextets_of:
  "length (sextets_of bs)
   = 4 * (length bs div 3) + (if length bs mod 3 = 0 then 0 else length bs mod 3 + 1)"
  by (induction bs rule: sextets_of.induct) simp_all

lemma encode_length:
  "(length (sextets_of bs) + (3 - length bs mod 3) mod 3) mod 4 = 0"
  "length (sextets_of bs) mod 4 \<noteq> 1"
proof -
  consider "length bs mod 3 = 0" | "length bs mod 3 = 1" | "length bs mod 3 = 2"
    by linarith
  then have "(length (sextets_of bs) + (3 - length bs mod 3) mod 3) mod 4 = 0
             \<and> length (sextets_of bs) mod 4 \<noteq> 1"
  proof cases
    case 1
    then show ?thesis by (simp add: length_sextets_of)
  next
    case 2
    have "(4 * (length bs div 3) + 2) mod 4 = 2" "(4 * (length bs div 3) + 2 + 2) mod 4 = 0"
      by presburger+
    with 2 show ?thesis by (simp add: length_sextets_of)
  next
    case 3
    have "(4 * (length bs div 3) + 3) mod 4 = 3" "(4 * (length bs div 3) + 3 + 1) mod 4 = 0"
      by presburger+
    with 3 show ?thesis by (simp add: length_sextets_of)
  qed
  then show "(length (sextets_of bs) + (3 - length bs mod 3) mod 3) mod 4 = 0"
    and "length (sextets_of bs) mod 4 \<noteq> 1" by simp_all
qed

subsection \<open>The alphabet\<close>

lemma b64_value_char: "n < 64 \<Longrightarrow> b64_value (b64_char n) = Some n"
  by (auto simp: b64_value_def b64_char_def Let_def)

lemma b64_values_chars:
  "\<forall>v\<in>set vs. v < 64 \<Longrightarrow> b64_values (map b64_char vs) = Some vs"
  by (induction vs) (simp_all add: b64_value_char)

lemma b64_value_not_pad: "b64_value c = Some v \<Longrightarrow> c \<noteq> CHR ''=''"
  by (auto simp: b64_value_def Let_def)

lemma b64_value_not_space: "b64_value c = Some v \<Longrightarrow> \<not> is_ascii_whitespace c"
  by (auto simp: b64_value_def is_ascii_whitespace_def Let_def split: if_splits)

lemma b64_value_not_comma: "b64_value c = Some v \<Longrightarrow> c \<noteq> CHR '',''"
  by (auto simp: b64_value_def Let_def)

lemma b64_char_facts:
  assumes "v < 64"
  shows "b64_char v \<noteq> CHR ''=''" "\<not> is_ascii_whitespace (b64_char v)" "b64_char v \<noteq> CHR '',''"
  using b64_value_char [OF assms] b64_value_not_pad b64_value_not_space b64_value_not_comma
  by blast+

subsection \<open>Padding and splitting\<close>

lemma strip_padding_body:
  assumes "CHR ''='' \<notin> set body" "n \<le> 2" "(length body + n) mod 4 = 0"
  shows "strip_padding (body @ replicate n CHR ''='') = body"
proof -
  have hd_rev: "take 1 (rev body) \<noteq> ''=''" "take 2 (rev body) \<noteq> ''==''"
    using assms(1) by (cases "rev body"; force)+
  consider "n = 0" | "n = 1" | "n = 2" using assms(2) by linarith
  then show ?thesis
  proof cases
    case 1
    with hd_rev assms(3) show ?thesis by (simp add: strip_padding_def)
  next
    case 2
    have "take 2 (CHR ''='' # rev body) \<noteq> ''==''"
      using assms(1) by (cases "rev body"; force)
    with 2 assms(3) show ?thesis by (simp add: strip_padding_def)
  next
    case 3
    with assms(3) show ?thesis by (simp add: strip_padding_def numeral_2_eq_2)
  qed
qed

lemma split_comma_no_comma: "CHR '','' \<notin> set s \<Longrightarrow> split_comma s = [s]"
  by (induction s) auto

lemma split_comma_header:
  "CHR '','' \<notin> set h \<Longrightarrow> split_comma (h @ CHR '','' # s) = h # split_comma s"
  by (induction h) auto

subsection \<open>Round trip\<close>

lemma unat_byte_less: "unat (b :: byte) < 256"
  using unsigned_less [of b, where ?'a = nat] by simp

lemma atob_base64_encode: "atob (base64_encode bs) = Inr (map (\<lambda>b. char_of (unat b)) bs)"
proof -
  define vs where "vs = sextets_of (map unat bs)"
  define body where "body = map b64_char vs"
  define n where "n = (3 - length bs mod 3) mod 3"
  have bytes: "\<forall>x\<in>set (map unat bs). x < 256"
    by (simp add: unat_byte_less)
  then have vs64: "\<forall>v\<in>set vs. v < 64"
    unfolding vs_def by (rule sextets_of_bound)
  have enc: "base64_encode bs = body @ replicate n CHR ''=''"
    by (simp add: base64_encode_def body_def vs_def n_def)
  have nopad: "CHR ''='' \<notin> set body"
  proof
    assume "CHR ''='' \<in> set body"
    then obtain v where "v \<in> set vs" "b64_char v = CHR ''=''"
      by (auto simp: body_def)
    with vs64 b64_char_facts(1) [of v] show False by simp
  qed
  have nospace: "\<forall>c\<in>set body. \<not> is_ascii_whitespace c"
  proof
    fix c assume "c \<in> set body"
    then obtain v where "v \<in> set vs" "c = b64_char v"
      by (auto simp: body_def)
    with vs64 b64_char_facts(2) [of v] show "\<not> is_ascii_whitespace c" by simp
  qed
  have pad_nospace: "\<not> is_ascii_whitespace CHR ''=''"
    by (simp add: is_ascii_whitespace_def)
  have filt: "filter (\<lambda>c. \<not> is_ascii_whitespace c) (body @ replicate n CHR ''='')
              = body @ replicate n CHR ''=''"
    using nospace pad_nospace by (simp add: filter_id_conv)
  have len: "(length body + n) mod 4 = 0" "length body mod 4 \<noteq> 1"
    using encode_length [of "map unat bs"] by (simp_all add: body_def vs_def n_def)
  have "n \<le> 2" by (simp add: n_def)
  from nopad this len(1) have strip: "strip_padding (body @ replicate n CHR ''='') = body"
    by (rule strip_padding_body)
  have vals: "b64_values body = Some vs"
    unfolding body_def using vs64 by (rule b64_values_chars)
  have dec: "decode_sextets vs = map unat bs"
    unfolding vs_def using bytes by (rule decode_sextets_of)
  have "atob (base64_encode bs) = Inr (map char_of (decode_sextets vs))"
    using len(2) by (simp only: atob_def Let_def enc filt strip vals option.case if_False)
  then show ?thesis
    by (simp add: dec)
qed

lemma bytes_of_binary:
  "map (\<lambda>c. word_of_nat (of_char c)) (map (\<lambda>b. char_of (unat b)) bs) = (bs :: byte list)"
  by (induction bs) (simp_all add: unat_byte_less)

lemma base64_encode_no_comma: "CHR '','' \<notin> set (base64_encode bs)"
proof -
  have "\<forall>v\<in>set (sextets_of (map unat bs)). v < 64"
    by (rule sextets_of_bound) (simp add: unat_byte_less)
  then have "\<forall>c\<in>set (map b64_char (sextets_of (map unat bs))). c \<noteq> CHR '',''"
    using b64_char_facts(3) by simp
  then show ?thesis
    by (auto simp: base64_encode_def)
qed

text \<open>
  Claim C8. A data URL made of a header, a comma and the base64 encoding of a byte
  array \<open>bs\<close> is decoded by \<open>dataUrlToUint8Array\<close> to exactly \<open>bs\<close>; the binary
  string that \<open>atob\<close> returns on the way has the length of \<open>bs\<close>, and every byte of
  the output is the code of the character at the same place. The header of a data URL
  is the part before its first comma, so it contains none.
\<close>

theorem dataUrlToUint8Array_roundtrip:
  assumes "CHR '','' \<notin> set header"
  shows "dataUrlToUint8Array (header @ '','' @ base64_encode bs) = Inr bs
         \<and> (\<exists>binary. atob (base64_encode bs) = Inr binary
               \<and> length bs = length binary
               \<and> (\<forall>i<length binary. bs ! i = word_of_nat (of_char (binary ! i))))"
proof
  have "split_comma (header @ '','' @ base64_encode bs) = [header, base64_encode bs]"
    using assms by (simp add: split_comma_header split_comma_no_comma base64_encode_no_comma)
  then show "dataUrlToUint8Array (header @ '','' @ base64_encode bs) = Inr bs"
    by (simp only: dataUrlToUint8Array_def Let_def list.case atob_base64_encode sum.case
        bytes_of_binary)
next
  let ?binary = "map (\<lambda>b. char_of (unat b)) bs"
  have "\<forall>i<length ?binary. bs ! i = word_of_nat (of_char (?binary ! i))"
    by (simp add: unat_byte_less)
  then show "\<exists>binary. atob (base64_encode bs) = Inr binary
               \<and> length bs = length binary
               \<and> (\<forall>i<length binary. bs ! i = word_of_nat (of_char (binary ! i)))"
    using atob_base64_encode [of bs] by auto
qed

theorem dataUrlToUint8Array_roundtrip_witness:
  "CHR '','' \<notin> set ''data:image/png;base64''
   \<and> base64_encode [137, 80, 78, 71, 13] = ''iVBORw0=''
   \<and> dataUrlToUint8Array ''data:image/png;base64,iVBORw0='' = Inr [137, 80, 78, 71, 13]"
proof -
  have e: "base64_encode [137, 80, 78, 71, 13] = ''iVBORw0=''"
    by code_simp
  have h: "CHR '','' \<notin> set ''data:image/png;base64''"
    by simp
  show ?thesis
    using h e dataUrlToUint8Array_roundtrip [OF h, of "[137, 80, 78, 71, 13]"]
    by simp
qed

section \<open>Properties of the rasteriser and the composer\<close>

subsection \<open>Effect of each step on the document\<close>

lemma embedPng_page: "has_page (snd (embedPng P bytes d)) = has_page d"
  by (simp add: embedPng_def split: option.splits)

lemma embedJpg_page: "has_page (snd (embedJpg P bytes d)) = has_page d"
  by (simp add: embedJpg_def split: option.splits)

lemma tryDrawField_page: "has_page (snd (tryDrawField P v c d)) = has_page d"
  by (auto simp: tryDrawField_def embedPng_def drawImage_def split: sum.splits option.splits prod.splits)

lemma tryDrawField_drawn:
  "drawn (snd (tryDrawField P v c d))
   = drawn d @ (case field_raster P v c of
                  Some img \<Rightarrow> if has_page d then [(img, rect_box c)] else []
                | None \<Rightarrow> [])"
  by (auto simp: tryDrawField_def field_raster_def embedPng_def drawImage_def
      split: sum.splits option.splits prod.splits)

lemma tryDrawField_fault:
  "fst (tryDrawField P v c d) = Inl e \<Longrightarrow> drawn (snd (tryDrawField P v c d)) = drawn d"
  by (auto simp: tryDrawField_def embedPng_def drawImage_def
      split: sum.splits option.splits prod.splits if_splits)

lemma drawField_page: "has_page (drawField P M d entry) = has_page d"
  by (simp add: drawField_def tryDrawField_page split: option.splits)

lemma drawField_drawn:
  "has_page d \<Longrightarrow>
   drawn (drawField P M d entry) = drawn d @ List.map_filter (entry_overlay P M) [entry]"
  by (simp add: drawField_def tryDrawField_drawn entry_overlay_def
      split: option.splits)

lemma drawFields_page: "has_page (drawFields P M entries d) = has_page d"
  by (induction entries arbitrary: d) (simp_all add: drawField_page)

lemma drawFields_drawn:
  "has_page d \<Longrightarrow>
   drawn (drawFields P M entries d) = drawn d @ List.map_filter (entry_overlay P M) entries"
proof (induction entries arbitrary: d)
  case Nil
  then show ?case by (simp add:)
next
  case (Cons entry entries)
  have "has_page (drawField P M d entry)"
    using Cons.prems by (simp add: drawField_page)
  then have "drawn (drawFields P M entries (drawField P M d entry))
             = drawn (drawField P M d entry) @ List.map_filter (entry_overlay P M) entries"
    by (rule Cons.IH)
  with Cons.prems show ?case
    by (simp add: drawField_drawn split: option.splits)
qed

lemma drawFields_no_page: "\<not> has_page d \<Longrightarrow> drawn (drawFields P M entries d) = drawn d"
proof (induction entries arbitrary: d)
  case Nil
  then show ?case by simp
next
  case (Cons entry entries)
  have "\<not> has_page (drawField P M d entry)"
    using Cons.prems by (simp add: drawField_page)
  moreover have "drawn (drawField P M d entry) = drawn d"
    using Cons.prems by (simp add: drawField_def tryDrawField_drawn split: option.splits)
  ultimately show ?case
    using Cons.IH [of "drawField P M d entry"] by simp
qed

lemma assign_fresh: "k \<notin> fst ` set kvs \<Longrightarrow> assign kvs k v = kvs @ [(k, v)]"
  by (induction kvs) auto

lemma foldl_build:
  assumes "distinct (map pdfFieldId fs)" "fst ` set acc \<inter> pdfFieldId ` set fs = {}"
  shows "foldl (\<lambda>pdfFieldData field.
              case formValues (field_id field) of
                None \<Rightarrow> pdfFieldData
              | Some v \<Rightarrow> if v \<noteq> [] then assign pdfFieldData (pdfFieldId field) v
                          else pdfFieldData) acc fs
         = acc @ List.map_filter (field_entry formValues) fs"
  using assms
proof (induction fs arbitrary: acc)
  case Nil
  then show ?case by (simp add:)
next
  case (Cons f fs)
  let ?step = "\<lambda>pdfFieldData field.
              case formValues (field_id field) of
                None \<Rightarrow> pdfFieldData
              | Some v \<Rightarrow> if v \<noteq> [] then assign pdfFieldData (pdfFieldId field) v
                          else pdfFieldData"
  define acc' where "acc' = ?step acc f"
  have fresh: "pdfFieldId f \<notin> fst ` set acc" using Cons.prems(2) by auto
  have step: "acc' = acc @ List.map_filter (field_entry formValues) [f]"
    unfolding acc'_def using fresh
    by (simp add: field_entry_def assign_fresh split: option.splits)
  have d: "distinct (map pdfFieldId fs)" using Cons.prems(1) by simp
  have sub: "fst ` set acc' \<subseteq> insert (pdfFieldId f) (fst ` set acc)"
    unfolding step
    by (auto simp: field_entry_def split: option.splits if_splits)
  have "pdfFieldId f \<notin> pdfFieldId ` set fs" using Cons.prems(1) by auto
  moreover have "fst ` set acc \<inter> pdfFieldId ` set fs = {}"
    using Cons.prems(2) by auto
  ultimately have "fst ` set acc' \<inter> pdfFieldId ` set fs = {}"
  proof -
    assume nf: "pdfFieldId f \<notin> pdfFieldId ` set fs"
      and disj: "fst ` set acc \<inter> pdfFieldId ` set fs = {}"
    show ?thesis
    proof (rule ccontr)
      assume "fst ` set acc' \<inter> pdfFieldId ` set fs \<noteq> {}"
      then obtain k where k: "k \<in> fst ` set acc'" "k \<in> pdfFieldId ` set fs" by auto
      from k(1) sub have "k = pdfFieldId f \<or> k \<in> fst ` set acc" by auto
      then show False
      proof
        assume "k = pdfFieldId f"
        with k(2) nf show False by simp
      next
        assume "k \<in> fst ` set acc"
        with k(2) disj show False by auto
      qed
    qed
  qed
  from Cons.IH [OF d this] have "foldl ?step acc' fs = acc' @ List.map_filter (field_entry formValues) fs" .
  moreover have "foldl ?step acc (f # fs) = foldl ?step acc' fs"
    by (simp add: acc'_def)
  ultimately show ?case
    by (simp add: step split: option.splits)
qed

lemma buildPdfFieldData_distinct:
  "distinct (map pdfFieldId fs) \<Longrightarrow>
   buildPdfFieldData fs formValues = List.map_filter (field_entry formValues) fs"
  unfolding buildPdfFieldData_def using foldl_build [of fs "[]" formValues] by simp

lemma mset_object_entries: "mset (object_entries obj) = mset obj"
  by (simp add: object_entries_def multiset_partition [symmetric])

lemma mset_map_filter_cong:
  assumes "mset xs = mset ys"
  shows "mset (List.map_filter f xs) = mset (List.map_filter f ys)"
proof -
  have "mset (List.map_filter f zs) = image_mset (the \<circ> f) (filter_mset (\<lambda>x. f x \<noteq> None) (mset zs))"
    for zs
    by (simp add: List.map_filter_def)
  with assms show ?thesis by simp
qed

lemma map_filter_map_filter:
  "List.map_filter g (List.map_filter f xs) = List.map_filter (\<lambda>x. Option.bind (f x) g) xs"
  by (induction xs) (simp_all split: option.splits)

lemma entry_of_field:
  "Option.bind (field_entry formValues f) (entry_overlay P M) = field_overlay P M formValues f"
  by (simp add: field_entry_def entry_overlay_def field_overlay_def split: option.splits)

lemma flattenForm_drawn: "drawn (flattenForm P d) = drawn d"
  by (simp add: flattenForm_def split: option.splits)

lemma flattenForm_page: "has_page (flattenForm P d) = has_page d"
  by (simp add: flattenForm_def split: option.splits)

lemma flattenForm_fault: "flattenFault P d = Some e \<Longrightarrow> flattenForm P d = d"
  by (simp add: flattenForm_def)

lemma tryEmbedAsset_page: "has_page (snd (tryEmbedAsset P url b d)) = has_page d"
  by (auto simp: tryEmbedAsset_def embedPng_def embedJpg_def drawImage_def
      split: sum.splits option.splits prod.splits if_splits)

lemma tryEmbedAsset_drawn:
  "drawn (snd (tryEmbedAsset P url b d))
   = drawn d @ (case asset_image P url of
                  Some img \<Rightarrow> if has_page d then [(img, b)] else []
                | None \<Rightarrow> [])"
  by (auto simp: tryEmbedAsset_def asset_image_def embedPng_def embedJpg_def drawImage_def
      split: sum.splits option.splits prod.splits if_splits)

lemma tryEmbedAsset_fault:
  "fst (tryEmbedAsset P url b d) = Inl e \<Longrightarrow> drawn (snd (tryEmbedAsset P url b d)) = drawn d"
  by (auto simp: tryEmbedAsset_def embedPng_def embedJpg_def drawImage_def
      split: sum.splits option.splits prod.splits if_splits)

lemma embedAsset_page: "has_page (embedAsset P asset b d) = has_page d"
  by (simp add: embedAsset_def tryEmbedAsset_page split: option.splits)

lemma embedAsset_drawn:
  "has_page d \<Longrightarrow> drawn (embedAsset P asset b d) = drawn d @ asset_overlay P asset b"
  by (simp add: embedAsset_def asset_overlay_def tryEmbedAsset_drawn split: option.splits)

lemma fill_document_page: "has_page (fill_document P M formValues images d) = has_page d"
  by (simp add: fill_document_def Let_def embedAsset_page flattenForm_page drawFields_page)

lemma fill_document_drawn:
  assumes "has_page d"
  shows "drawn (fill_document P M formValues images d)
         = drawn d
           @ List.map_filter (entry_overlay P M)
               (object_entries (buildPdfFieldData (FORM_FIELDS M) formValues))
           @ asset_overlay P (photo images) (PHOTO_BOX M)
           @ asset_overlay P (signature images) (SIGNATURE_POSITIONS_student M)"
  using assms
  by (simp add: fill_document_def Let_def embedAsset_drawn embedAsset_page flattenForm_page
      flattenForm_drawn drawFields_page drawFields_drawn)

lemma field_overlays_mset:
  assumes "distinct (map pdfFieldId (FORM_FIELDS M))"
  shows "mset (List.map_filter (entry_overlay P M)
                 (object_entries (buildPdfFieldData (FORM_FIELDS M) formValues)))
         = mset (List.map_filter (field_overlay P M formValues) (FORM_FIELDS M))"
proof -
  have "mset (List.map_filter (entry_overlay P M)
                 (object_entries (buildPdfFieldData (FORM_FIELDS M) formValues)))
        = mset (List.map_filter (entry_overlay P M) (buildPdfFieldData (FORM_FIELDS M) formValues))"
    by (rule mset_map_filter_cong) (rule mset_object_entries)
  also have "\<dots> = mset (List.map_filter (entry_overlay P M)
                           (List.map_filter (field_entry formValues) (FORM_FIELDS M)))"
    using assms by (simp add: buildPdfFieldData_distinct)
  also have "\<dots> = mset (List.map_filter (field_overlay P M formValues) (FORM_FIELDS M))"
    by (simp add: map_filter_map_filter entry_of_field)
  finally show ?thesis .
qed

subsection \<open>Example evaluations\<close>

lemma decode_png_signature:
  "dataUrlToUint8Array ''data:image/png;base64,iVBORw0KGgo='' = Inr png_signature"
  by (simp add: dataUrlToUint8Array_def atob_def strip_padding_def is_ascii_whitespace_def
      b64_value_def Let_def png_signature_def)

lemma decode_jpeg_marker:
  "dataUrlToUint8Array ''data:image/jpeg;base64,/9j/4A=='' = Inr [255, 216, 255, 224]"
  by (simp add: dataUrlToUint8Array_def atob_def strip_padding_def is_ascii_whitespace_def
      b64_value_def Let_def)

lemma decode_jpeg_spelling_png:
  "dataUrlToUint8Array jpeg_spelling_png
   = Inr [255, 216, 255, 138, 102, 160, 123, 250, 103, 128, 0, 0]"
  by (simp add: jpeg_spelling_png_def dataUrlToUint8Array_def atob_def strip_padding_def
      is_ascii_whitespace_def b64_value_def Let_def)

lemma example_entries:
  "object_entries (buildPdfFieldData (FORM_FIELDS example_module) example_values)
   = [(''text_3zwog'', ''abc''), (''text_name'', ''Abc'')]"
  by (simp add: example_module_def example_values_def buildPdfFieldData_def object_entries_def
      array_index_def)

lemma example_coords:
  "FIELD_COORDS example_module ''text_3zwog''
     = Some \<lparr> rect_x = 193, rect_y = 584, rect_w = 364, rect_h = 11 \<rparr>"
  "FIELD_COORDS example_module ''text_name'' = None"
  by (simp_all add: example_module_def)

subsection \<open>The rasteriser\<close>

text \<open>
  Claim C6. The canvas that \<open>renderTextToImage\<close> creates for a rectangle is
  \<open>fieldWidth * scale\<close> wide and \<open>fieldHeight * scale\<close> high, with the fixed factor
  \<open>scale = 4\<close>, which is at least 3; the font size is 0.85 times the height of the
  rectangle, set on the upscaled canvas as that size times \<open>scale\<close>. This canvas is the
  one whose 2d context is asked for and whose data URL is returned.
\<close>

theorem renderTextToImage_surface:
  "3 \<le> scale
   \<and> canvas_width (sized_canvas fieldWidth fieldHeight) = fieldWidth * scale
   \<and> canvas_height (sized_canvas fieldWidth fieldHeight) = fieldHeight * scale
   \<and> canvas_width (painted_canvas text fieldWidth fieldHeight) = fieldWidth * scale
   \<and> canvas_height (painted_canvas text fieldWidth fieldHeight) = fieldHeight * scale
   \<and> fontSize fieldHeight = 85 / 100 * fieldHeight
   \<and> font_px (painted_canvas text fieldWidth fieldHeight) = fontSize fieldHeight * scale
   \<and> renderTextToImage P text fieldWidth fieldHeight
       = (if getContext P (sized_canvas fieldWidth fieldHeight)
          then toDataURL P (painted_canvas text fieldWidth fieldHeight) else Inr [])"
  by (simp add: scale_def sized_canvas_def painted_canvas_def fontSize_def Let_def
      renderTextToImage_def)

theorem renderTextToImage_surface_witness:
  "canvas_width (painted_canvas ''abc'' 364 11) = 1456
   \<and> canvas_height (painted_canvas ''abc'' 364 11) = 44
   \<and> font_px (painted_canvas ''abc'' 364 11) = 374 / 10
   \<and> renderTextToImage working_platform ''abc'' 364 11
       = Inr ''data:image/png;base64,iVBORw0KGgo=''"
  using renderTextToImage_surface [of 364 11 "''abc''" working_platform]
  by (simp add: scale_def fontSize_def working_platform_def)

text \<open>
  Claim C7. When the 2d context of the canvas is unavailable, \<open>renderTextToImage\<close>
  returns the empty string (it does not throw); the \<open>try\<close> body of the field then
  finishes without a fault and leaves the document as it was, with nothing embedded
  and nothing drawn, and the loop goes on with the remaining fields.
\<close>

theorem renderTextToImage_unavailable:
  assumes "\<not> getContext P (sized_canvas (rect_w coords) (rect_h coords))"
    and "FIELD_COORDS M name = Some coords"
  shows "renderTextToImage P text (rect_w coords) (rect_h coords) = Inr []
         \<and> tryDrawField P text coords d = (Inr (), d)
         \<and> drawField P M d (name, text) = d
         \<and> drawFields P M ((name, text) # rest) d = drawFields P M rest d"
proof -
  have r: "renderTextToImage P text (rect_w coords) (rect_h coords) = Inr []"
    using assms(1) by (simp add: renderTextToImage_def)
  then have t: "tryDrawField P text coords d = (Inr (), d)"
    by (simp add: tryDrawField_def)
  with assms(2) have f: "drawField P M d (name, text) = d"
    by (simp add: drawField_def)
  from r t f show ?thesis by simp
qed

theorem renderTextToImage_unavailable_witness:
  "\<not> getContext no_canvas_platform (sized_canvas 364 11)
   \<and> renderTextToImage no_canvas_platform ''abc'' 364 11 = Inr []
   \<and> drawFields no_canvas_platform example_module
        [(''text_3zwog'', ''abc''), (''text_name'', ''Abc'')] blank_template
      = blank_template"
proof -
  have c: "\<not> getContext no_canvas_platform
               (sized_canvas (rect_w \<lparr> rect_x = 193, rect_y = 584, rect_w = 364, rect_h = 11 \<rparr>)
                             (rect_h \<lparr> rect_x = 193, rect_y = 584, rect_w = 364, rect_h = 11 \<rparr>))"
    by (simp add: no_canvas_platform_def)
  show ?thesis
    using c renderTextToImage_unavailable [OF c example_coords(1), of "''abc''" blank_template
        "[(''text_name'', ''Abc'')]"]
    by (simp add: drawField_def example_coords)
qed

subsection \<open>The composer\<close>

text \<open>
  Claim C1. A call of \<open>fillPdfForm\<close> fails exactly when loading the template fails or
  when saving the filled document fails, and with that fault; when both succeed the
  call returns the saved bytes, whatever happened in between. A fault in the \<open>try\<close>
  body of a text field, of the photo or of the signature leaves the images drawn on
  the page as they were, and so does a fault in flattening, which also leaves the
  embedded images as they were.
\<close>

theorem fillPdfForm_fault_propagation:
  "(fillPdfForm P M formValues images = Inl e \<longleftrightarrow>
      loadTemplate P = Inl e
      \<or> (\<exists>d. loadTemplate P = Inr d \<and> save P (fill_document P M formValues images d) = Inl e))
   \<and> (loadTemplate P = Inr d0 \<and> save P (fill_document P M formValues images d0) = Inr out
        \<longrightarrow> fillPdfForm P M formValues images = Inr out)
   \<and> (fst (tryDrawField P v coords d1) = Inl e1
        \<longrightarrow> drawn (snd (tryDrawField P v coords d1)) = drawn d1)
   \<and> (flattenFault P d2 = Some e2
        \<longrightarrow> drawn (flattenForm P d2) = drawn d2 \<and> embedded (flattenForm P d2) = embedded d2)
   \<and> (fst (tryEmbedAsset P url b d3) = Inl e3
        \<longrightarrow> drawn (snd (tryEmbedAsset P url b d3)) = drawn d3)"
proof (intro conjI impI)
  show "fillPdfForm P M formValues images = Inl e \<longleftrightarrow>
      loadTemplate P = Inl e
      \<or> (\<exists>d. loadTemplate P = Inr d \<and> save P (fill_document P M formValues images d) = Inl e)"
    by (cases "loadTemplate P") (simp_all add: fillPdfForm_def)
next
  assume "loadTemplate P = Inr d0 \<and> save P (fill_document P M formValues images d0) = Inr out"
  then show "fillPdfForm P M formValues images = Inr out"
    by (simp add: fillPdfForm_def)
next
  assume "fst (tryDrawField P v coords d1) = Inl e1"
  then show "drawn (snd (tryDrawField P v coords d1)) = drawn d1"
    by (rule tryDrawField_fault)
next
  assume "flattenFault P d2 = Some e2"
  then show "drawn (flattenForm P d2) = drawn d2"
    by (simp add: flattenForm_fault)
next
  assume "flattenFault P d2 = Some e2"
  then show "embedded (flattenForm P d2) = embedded d2"
    by (simp add: flattenForm_fault)
next
  assume "fst (tryEmbedAsset P url b d3) = Inl e3"
  then show "drawn (snd (tryEmbedAsset P url b d3)) = drawn d3"
    by (rule tryEmbedAsset_fault)
qed

lemma example_boxes:
  "PHOTO_BOX example_module = \<lparr> box_x = 450, box_y = 650, box_width = 100, box_height = 120 \<rparr>"
  "SIGNATURE_POSITIONS_student example_module
     = \<lparr> box_x = 100, box_y = 80, box_width = 120, box_height = 40 \<rparr>"
  by (simp_all add: example_module_def)

lemma blank_template_fields:
  "has_page blank_template" "embedded blank_template = []" "drawn blank_template = []"
  "\<not> flattened blank_template"
  by (simp_all add: blank_template_def)

lemma take_png_signature: "take 8 png_signature = png_signature"
  by (simp add: png_signature_def)

lemma faulty_platform_answers:
  "loadTemplate faulty_platform = Inr blank_template"
  "getContext faulty_platform c = True"
  "toDataURL faulty_platform c = Inr ''data:image/png;base64,iVBORw0KGgo=''"
  "embedPngFault faulty_platform bytes = Some (Thrown ''bad PNG'')"
  "embedJpgFault faulty_platform bytes = Some (Thrown ''bad JPEG'')"
  "flattenFault faulty_platform d = Some (Thrown ''flatten'')"
  "save faulty_platform = count_drawn"
  by (simp_all add: faulty_platform_def working_platform_def)

lemma working_platform_answers:
  "loadTemplate working_platform = Inr blank_template"
  "getContext working_platform c = True"
  "toDataURL working_platform c = Inr ''data:image/png;base64,iVBORw0KGgo=''"
  "embedPngFault working_platform bytes
     = (if take 8 bytes = png_signature then None else Some (Thrown ''not a PNG''))"
  "embedJpgFault working_platform bytes
     = (if take 2 bytes = [255, 216] then None else Some (Thrown ''not a JPEG''))"
  "flattenFault working_platform d = None"
  "save working_platform = count_drawn"
  by (simp_all add: working_platform_def)

lemma no_canvas_platform_answers:
  "loadTemplate no_canvas_platform = Inr blank_template"
  "getContext no_canvas_platform c = False"
  "flattenFault no_canvas_platform d = None"
  "save no_canvas_platform = count_drawn"
  by (simp_all add: no_canvas_platform_def working_platform_def)

lemma faulty_field:
  "tryDrawField faulty_platform ''abc''
     \<lparr> rect_x = 193, rect_y = 584, rect_w = 364, rect_h = 11 \<rparr> blank_template
   = (Inl (Thrown ''bad PNG''), blank_template)"
  by (simp add: tryDrawField_def renderTextToImage_def faulty_platform_answers
      decode_png_signature embedPng_def)

lemma faulty_photo:
  "tryEmbedAsset faulty_platform ''data:image/jpeg;base64,/9j/4A=='' bx blank_template
   = (Inl (Thrown ''bad JPEG''), blank_template)"
  by (simp add: tryEmbedAsset_def decode_jpeg_marker getImageType_def embedJpg_def
      faulty_platform_answers)

lemma faulty_signature:
  "tryEmbedAsset faulty_platform ''data:image/png;base64,iVBORw0KGgo='' bx blank_template
   = (Inl (Thrown ''bad PNG''), blank_template)"
  by (simp add: tryEmbedAsset_def decode_png_signature getImageType_def embedPng_def
      faulty_platform_answers)

lemma faulty_document:
  "fill_document faulty_platform example_module example_values example_images blank_template
   = blank_template"
  by (simp add: fill_document_def Let_def example_entries drawField_def example_coords
      faulty_field flattenForm_def faulty_platform_answers embedAsset_def example_images_def
      faulty_photo faulty_signature)

theorem fillPdfForm_fault_propagation_witness:
  "loadTemplate faulty_platform = Inr blank_template
   \<and> fst (tryDrawField faulty_platform ''abc''
            \<lparr> rect_x = 193, rect_y = 584, rect_w = 364, rect_h = 11 \<rparr> blank_template)
       = Inl (Thrown ''bad PNG'')
   \<and> flattenFault faulty_platform blank_template = Some (Thrown ''flatten'')
   \<and> fst (tryEmbedAsset faulty_platform ''data:image/jpeg;base64,/9j/4A==''
            (PHOTO_BOX example_module) blank_template)
       = Inl (Thrown ''bad JPEG'')
   \<and> save faulty_platform
        (fill_document faulty_platform example_module example_values example_images
           blank_template)
       = Inr [0]
   \<and> fillPdfForm faulty_platform example_module example_values example_images = Inr [0]"
proof -
  have s: "save faulty_platform
        (fill_document faulty_platform example_module example_values example_images
           blank_template) = Inr [0]"
    by (simp add: faulty_document faulty_platform_answers count_drawn_def blank_template_fields)
  show ?thesis
    using s fillPdfForm_fault_propagation
      [where P = faulty_platform and M = example_module and formValues = example_values
         and images = example_images and ?d0.0 = blank_template and out = "[0]"
         and v = "''abc''"
         and coords = "\<lparr> rect_x = 193, rect_y = 584, rect_w = 364, rect_h = 11 \<rparr>"
         and ?d1.0 = blank_template and ?e1.0 = "Thrown ''bad PNG''"
         and ?d2.0 = blank_template and ?e2.0 = "Thrown ''flatten''"
         and url = "''data:image/jpeg;base64,/9j/4A==''" and b = "PHOTO_BOX example_module"
         and ?d3.0 = blank_template and ?e3.0 = "Thrown ''bad JPEG''"]
    by (simp add: faulty_platform_answers faulty_field faulty_photo)
qed

text \<open>
  Claim C2, as stated, fails: on a platform without a 2d context the field
  \<open>name_bn\<close> has a non-empty value and its \<open>pdfFieldId\<close> has coordinates, yet the
  call draws nothing and returns a document without the overlay.
\<close>

theorem fillPdfForm_overlay_counterexample:
  "\<lparr> field_id = ''name_bn'', pdfFieldId = ''text_3zwog'' \<rparr> \<in> set (FORM_FIELDS example_module)
   \<and> example_values ''name_bn'' = Some ''abc''
   \<and> FIELD_COORDS example_module ''text_3zwog''
       = Some \<lparr> rect_x = 193, rect_y = 584, rect_w = 364, rect_h = 11 \<rparr>
   \<and> drawn (fill_document no_canvas_platform example_module example_values
              \<lparr> photo = None, signature = None \<rparr> blank_template) = []
   \<and> fillPdfForm no_canvas_platform example_module example_values
        \<lparr> photo = None, signature = None \<rparr> = Inr [0]"
proof -
  have d: "fill_document no_canvas_platform example_module example_values
              \<lparr> photo = None, signature = None \<rparr> blank_template
           = blank_template \<lparr> flattened := True \<rparr>"
    by (simp add: fill_document_def Let_def example_entries drawField_def example_coords
        tryDrawField_def renderTextToImage_def no_canvas_platform_answers flattenForm_def
        embedAsset_def)
  have m: "\<lparr> field_id = ''name_bn'', pdfFieldId = ''text_3zwog'' \<rparr>
             \<in> set (FORM_FIELDS example_module)"
    by (simp add: example_module_def)
  have v: "example_values ''name_bn'' = Some ''abc''"
    by (simp add: example_values_def)
  show ?thesis
    by (simp add: m v d fillPdfForm_def no_canvas_platform_answers count_drawn_def
        blank_template_fields example_coords)
qed

text \<open>
  Claim C2, amended. Let the table have distinct \<open>pdfFieldId\<close>s and the template a
  first page. Then the images drawn by a call are those of the template, one overlay
  for every field of the table that has one, the photo and the signature; and a field
  has an overlay exactly when its value is defined and non-empty, its \<open>pdfFieldId\<close>
  has an entry in the coordinate table, and rasterising the value, decoding the data
  URL and embedding the PNG all succeed: the overlay is then that raster at the
  rectangle of the entry. A field name without coordinates is passed over, and the
  document stays as it was.
\<close>

theorem fillPdfForm_overlays:
  assumes "distinct (map pdfFieldId (FORM_FIELDS M))" and "has_page d"
  shows "mset (drawn (fill_document P M formValues images d))
         = mset (drawn d)
           + mset (List.map_filter (field_overlay P M formValues) (FORM_FIELDS M))
           + mset (asset_overlay P (photo images) (PHOTO_BOX M))
           + mset (asset_overlay P (signature images) (SIGNATURE_POSITIONS_student M))
       \<and> (field_overlay P M formValues f = Some overlay \<longleftrightarrow>
            (\<exists>v coords img. formValues (field_id f) = Some v \<and> v \<noteq> []
               \<and> FIELD_COORDS M (pdfFieldId f) = Some coords
               \<and> field_raster P v coords = Some img
               \<and> overlay = (img, rect_box coords)))
       \<and> (FIELD_COORDS M name = None \<longrightarrow> drawField P M d (name, v) = d)"
proof (intro conjI impI)
  show "mset (drawn (fill_document P M formValues images d))
         = mset (drawn d)
           + mset (List.map_filter (field_overlay P M formValues) (FORM_FIELDS M))
           + mset (asset_overlay P (photo images) (PHOTO_BOX M))
           + mset (asset_overlay P (signature images) (SIGNATURE_POSITIONS_student M))"
    using assms(2) by (simp add: fill_document_drawn field_overlays_mset [OF assms(1)])
next
  show "field_overlay P M formValues f = Some overlay \<longleftrightarrow>
            (\<exists>v coords img. formValues (field_id f) = Some v \<and> v \<noteq> []
               \<and> FIELD_COORDS M (pdfFieldId f) = Some coords
               \<and> field_raster P v coords = Some img
               \<and> overlay = (img, rect_box coords))"
    by (auto simp: field_overlay_def split: option.splits)
next
  assume "FIELD_COORDS M name = None"
  then show "drawField P M d (name, v) = d"
    by (simp add: drawField_def)
qed

lemma working_raster:
  "field_raster working_platform ''abc''
     \<lparr> rect_x = 193, rect_y = 584, rect_w = 364, rect_h = 11 \<rparr>
   = Some (PngImage png_signature)"
  by (simp add: field_raster_def renderTextToImage_def working_platform_answers
      decode_png_signature take_png_signature)

lemma working_photo:
  "asset_image working_platform ''data:image/jpeg;base64,/9j/4A==''
   = Some (JpgImage [255, 216, 255, 224])"
  by (simp add: asset_image_def decode_jpeg_marker getImageType_def working_platform_answers)

lemma working_signature:
  "asset_image working_platform ''data:image/png;base64,iVBORw0KGgo=''
   = Some (PngImage png_signature)"
  by (simp add: asset_image_def decode_png_signature getImageType_def working_platform_answers
      take_png_signature)

theorem fillPdfForm_overlays_witness:
  "distinct (map pdfFieldId (FORM_FIELDS example_module))
   \<and> has_page blank_template
   \<and> FIELD_COORDS example_module ''text_name'' = None
   \<and> drawField working_platform example_module blank_template (''text_name'', ''Abc'')
       = blank_template
   \<and> field_overlay working_platform example_module example_values
        \<lparr> field_id = ''name_en'', pdfFieldId = ''text_name'' \<rparr> = None
   \<and> mset (drawn (fill_document working_platform example_module example_values
                    example_images blank_template))
       = {# (PngImage png_signature,
             \<lparr> box_x = 193, box_y = 584, box_width = 364, box_height = 11 \<rparr>),
            (JpgImage [255, 216, 255, 224], PHOTO_BOX example_module),
            (PngImage png_signature, SIGNATURE_POSITIONS_student example_module) #}"
proof -
  have dist: "distinct (map pdfFieldId (FORM_FIELDS example_module))"
    by (simp add: example_module_def)
  have page: "has_page blank_template"
    by (rule blank_template_fields)
  have o1: "field_overlay working_platform example_module example_values
              \<lparr> field_id = ''name_bn'', pdfFieldId = ''text_3zwog'' \<rparr>
            = Some (PngImage png_signature,
                    \<lparr> box_x = 193, box_y = 584, box_width = 364, box_height = 11 \<rparr>)"
    by (simp add: field_overlay_def example_values_def example_coords working_raster
        rect_box_def)
  have o2: "field_overlay working_platform example_module example_values
              \<lparr> field_id = ''name_en'', pdfFieldId = ''text_name'' \<rparr> = None"
    by (simp add: field_overlay_def example_values_def example_coords)
  have fs: "FORM_FIELDS example_module
            = [\<lparr> field_id = ''name_bn'', pdfFieldId = ''text_3zwog'' \<rparr>,
               \<lparr> field_id = ''name_en'', pdfFieldId = ''text_name'' \<rparr>]"
    by (simp add: example_module_def)
  have ov: "List.map_filter (field_overlay working_platform example_module example_values)
              (FORM_FIELDS example_module)
            = [(PngImage png_signature,
                \<lparr> box_x = 193, box_y = 584, box_width = 364, box_height = 11 \<rparr>)]"
    by (simp add: fs o1 o2)
  have as: "asset_overlay working_platform (photo example_images) (PHOTO_BOX example_module)
            = [(JpgImage [255, 216, 255, 224], PHOTO_BOX example_module)]"
    "asset_overlay working_platform (signature example_images)
       (SIGNATURE_POSITIONS_student example_module)
     = [(PngImage png_signature, SIGNATURE_POSITIONS_student example_module)]"
    by (simp_all add: asset_overlay_def example_images_def working_photo working_signature)
  show ?thesis
    using dist page o2 example_coords(2)
      fillPdfForm_overlays [OF dist page, where P = working_platform
        and formValues = example_values and images = example_images
        and name = "''text_name''" and v = "''Abc''"]
    by (simp add: ov as blank_template_fields)
qed

text \<open>
  Claim C5: an asset is embedded by the path of its MIME kind, PNG or JPEG. The source
  does not meet it at a data URL of media type \<open>image/jpeg\<close> whose payload contains
  the characters \<open>image/png\<close>: \<open>getImageType\<close> searches the whole URL, finds them in
  the payload and answers \<open>png\<close>. The bytes, which the JPEG parser of the example
  platform accepts, go to the PNG parser, which rejects them, and the photo is not
  drawn. A URL whose header names \<open>image/png\<close> always takes the PNG path.
\<close>

theorem getImageType_jpeg_taken_as_png:
  "header_media_type jpeg_spelling_png = ''image/jpeg''
   \<and> getImageType jpeg_spelling_png = ''png''
   \<and> dataUrlToUint8Array jpeg_spelling_png
       = Inr [255, 216, 255, 138, 102, 160, 123, 250, 103, 128, 0, 0]
   \<and> embedJpgFault working_platform [255, 216, 255, 138, 102, 160, 123, 250, 103, 128, 0, 0]
       = None
   \<and> tryEmbedAsset working_platform jpeg_spelling_png (PHOTO_BOX example_module) blank_template
       = (Inl (Thrown ''not a PNG''), blank_template)
   \<and> drawn (embedAsset working_platform (Some jpeg_spelling_png) (PHOTO_BOX example_module)
              blank_template) = []"
proof -
  have t: "getImageType jpeg_spelling_png = ''png''"
    by (simp add: getImageType_def jpeg_spelling_png_def)
  have h: "header_media_type jpeg_spelling_png = ''image/jpeg''"
    by (simp add: header_media_type_def jpeg_spelling_png_def)
  have e: "tryEmbedAsset working_platform jpeg_spelling_png (PHOTO_BOX example_module)
             blank_template = (Inl (Thrown ''not a PNG''), blank_template)"
    by (simp add: tryEmbedAsset_def decode_jpeg_spelling_png t embedPng_def
        working_platform_answers png_signature_def)
  have n: "jpeg_spelling_png \<noteq> []"
    by (simp add: jpeg_spelling_png_def)
  show ?thesis
    by (simp add: t h e n decode_jpeg_spelling_png working_platform_answers embedAsset_def
        blank_template_fields)
qed

lemma string_includes_iff: "string_includes s pat \<longleftrightarrow> (\<exists>pre post. s = pre @ pat @ post)"
proof (induction s)
  case Nil
  then show ?case by auto
next
  case (Cons c cs)
  show ?case
  proof
    assume "string_includes (c # cs) pat"
    then consider "take (length pat) (c # cs) = pat" | "string_includes cs pat" by auto
    then show "\<exists>pre post. c # cs = pre @ pat @ post"
    proof cases
      case 1
      then have "c # cs = [] @ pat @ drop (length pat) (c # cs)"
        by (metis append_Nil append_take_drop_id)
      then show ?thesis by blast
    next
      case 2
      with Cons obtain pre post where "cs = pre @ pat @ post" by auto
      then have "c # cs = (c # pre) @ pat @ post" by simp
      then show ?thesis by blast
    qed
  next
    assume "\<exists>pre post. c # cs = pre @ pat @ post"
    then obtain pre post where eq: "c # cs = pre @ pat @ post" by auto
    show "string_includes (c # cs) pat"
    proof (cases pre)
      case Nil
      with eq have "take (length pat) (c # cs) = pat" by simp
      then show ?thesis by simp
    next
      case (Cons p ps)
      with eq have "cs = ps @ pat @ post" by simp
      then have "string_includes cs pat"
        using \<open>string_includes cs pat = (\<exists>pre post. cs = pre @ pat @ post)\<close> by blast
      then show ?thesis by simp
    qed
  qed
qed

lemma getImageType_png_header:
  "getImageType (''data:image/png;base64,'' @ payload) = ''png''"
proof -
  have "string_includes (''data:image/png;base64,'' @ payload) ''image/png''"
    unfolding string_includes_iff
    by (rule exI [of _ "''data:''"], rule exI [of _ "'';base64,'' @ payload"]) simp
  then show ?thesis by (simp add: getImageType_def)
qed

lemma getImageType_jpg_iff:
  "getImageType dataUrl = ''jpg'' \<longleftrightarrow> \<not> (\<exists>pre post. dataUrl = pre @ ''image/png'' @ post)"
  by (simp add: getImageType_def string_includes_iff)

end
